theory Spec2Isabelle
  imports Complex_Main "HOL-Library.Sublist" "HOL-Library.Multiset" "HOL-Library.Log_Nat"
begin

section \<open>Python values and exceptions\<close>

text \<open>
  The program (\<^verbatim>\<open>main.py\<close>) works on the result of \<^verbatim>\<open>response.json()\<close>: Python objects built
  from JSON. \<^verbatim>\<open>TrailItem.content\<close> and \<^verbatim>\<open>TrailItem.properties\<close> are declared \<^verbatim>\<open>Any\<close>, so the
  accessors are modelled on every such object, and each exception the interpreter would
  raise is a value \<open>Inl e\<close> of the result.

  A Python \<^verbatim>\<open>float\<close> is an IEEE-754 binary64 number; a finite one is represented by the
  rational number it denotes (the sign of zero, which no accessor below observes, is not
  kept). A \<^verbatim>\<open>dict\<close> is an association list read with \<open>map_of\<close>; a \<^verbatim>\<open>str\<close> is its UTF-8
  text, on which the search for an ASCII word gives the answer of Python's \<^verbatim>\<open>in\<close>.
\<close>

datatype error =
    ValueError string
  | KeyError string
  | TypeError
  | AttributeError
  | OverflowError
  | ValidationError "string list"

datatype pyfloat = Fin rat | PosInf | NegInf | NaN

datatype pyval =
    PNone
  | PBool bool
  | PInt int
  | PFloat pyfloat
  | PStr string
  | PList "pyval list"
  | PDict "(string \<times> pyval) list"

text \<open>Sequencing of computations that may raise: the first exception wins.\<close>

definition bind_E :: "error + 'a \<Rightarrow> ('a \<Rightarrow> error + 'b) \<Rightarrow> error + 'b" where
  "bind_E m f = (case m of Inl e \<Rightarrow> Inl e | Inr x \<Rightarrow> f x)"

text \<open>Truth value testing, \<^verbatim>\<open>bool(x)\<close>.\<close>

fun truthy :: "pyval \<Rightarrow> bool" where
  "truthy PNone = False"
| "truthy (PBool b) = b"
| "truthy (PInt n) = (n \<noteq> 0)"
| "truthy (PFloat x) = (x \<noteq> Fin 0)"
| "truthy (PStr s) = (s \<noteq> [])"
| "truthy (PList xs) = (xs \<noteq> [])"
| "truthy (PDict kvs) = (kvs \<noteq> [])"

text \<open>\<^verbatim>\<open>obj.get(key, default)\<close>: only a \<^verbatim>\<open>dict\<close> has the method.\<close>

fun py_get :: "pyval \<Rightarrow> string \<Rightarrow> pyval \<Rightarrow> error + pyval" where
  "py_get (PDict kvs) k d = Inr (case map_of kvs k of None \<Rightarrow> d | Some v \<Rightarrow> v)"
| "py_get _ k d = Inl AttributeError"

text \<open>\<^verbatim>\<open>obj[key]\<close> with a string key: \<^verbatim>\<open>KeyError\<close> on a \<^verbatim>\<open>dict\<close> without the key,
  \<^verbatim>\<open>TypeError\<close> on every other JSON object (\<^verbatim>\<open>None\<close>, numbers, strings, lists).\<close>

fun py_getitem :: "pyval \<Rightarrow> string \<Rightarrow> error + pyval" where
  "py_getitem (PDict kvs) k = (case map_of kvs k of None \<Rightarrow> Inl (KeyError k) | Some v \<Rightarrow> Inr v)"
| "py_getitem _ k = Inl TypeError"

text \<open>\<^verbatim>\<open>word in obj\<close> for a string literal \<^verbatim>\<open>word\<close>: substring search in a \<^verbatim>\<open>str\<close>, membership
  in a \<^verbatim>\<open>list\<close>, key membership in a \<^verbatim>\<open>dict\<close>, \<^verbatim>\<open>TypeError\<close> otherwise.\<close>

fun py_in :: "string \<Rightarrow> pyval \<Rightarrow> error + bool" where
  "py_in w (PStr s) = Inr (sublist w s)"
| "py_in w (PList xs) = Inr (PStr w \<in> set xs)"
| "py_in w (PDict kvs) = Inr (w \<in> fst ` set kvs)"
| "py_in w _ = Inl TypeError"

text \<open>\<^verbatim>\<open>a or b\<close>: \<^verbatim>\<open>b\<close> is evaluated only when \<^verbatim>\<open>a\<close> is false, and the value is one of the
  operands.\<close>

definition py_or :: "pyval \<Rightarrow> (error + pyval) \<Rightarrow> error + pyval" where
  "py_or a b = (if truthy a then Inr a else b)"

section \<open>TrailItem\<close>

record TrailItem =
  id :: string
  objectClass :: string
  content :: pyval
  properties :: pyval
  networkId :: string

definition network_id :: "TrailItem \<Rightarrow> string" where
  "network_id t = networkId t"

definition activity :: "TrailItem \<Rightarrow> error + pyval" where
  "activity t =
     (if truthy (content t) then py_get (content t) ''activity'' (PDict [])
      else Inl (ValueError ''no self.content''))"

definition activity_key :: "TrailItem \<Rightarrow> error + pyval" where
  "activity_key t =
     bind_E (activity t) (\<lambda>a.
       if truthy a then bind_E (activity t) (\<lambda>a'. py_get a' ''key'' (PStr ''''))
       else Inr (PStr ''''))"

definition has_running_activity :: "TrailItem \<Rightarrow> error + bool" where
  "has_running_activity t =
     bind_E (activity_key t) (\<lambda>k. bind_E (py_in ''running'' k) (\<lambda>b.
       if b then Inr True else Inr False))"

definition has_riding_activity :: "TrailItem \<Rightarrow> error + bool" where
  "has_riding_activity t =
     bind_E (activity_key t) (\<lambda>k. bind_E (py_in ''riding'' k) (\<lambda>b.
       if b then Inr True else Inr False))"

definition has_hike_activity :: "TrailItem \<Rightarrow> error + bool" where
  "has_hike_activity t =
     bind_E (activity_key t) (\<lambda>k. bind_E (py_in ''hiking'' k) (\<lambda>b.
       if b then Inr True else Inr False))"

text \<open>The condition of the source is \<^verbatim>\<open>"bicycle" or "gravel" in self.activity_key\<close>, which
  Python reads as \<^verbatim>\<open>"bicycle" or ("gravel" in self.activity_key)\<close>.\<close>

definition has_bike_activity :: "TrailItem \<Rightarrow> error + bool" where
  "has_bike_activity t =
     bind_E (py_or (PStr ''bicycle'')
               (bind_E (activity_key t) (\<lambda>k. bind_E (py_in ''gravel'' k) (\<lambda>b. Inr (PBool b)))))
       (\<lambda>c. if truthy c then Inr True else Inr False)"

definition is_multitrail :: "TrailItem \<Rightarrow> error + pyval" where
  "is_multitrail t = py_getitem (properties t) ''isMultiTrail''"

definition url :: "TrailItem \<Rightarrow> string" where
  "url t = ''https://www.aretrails.com/trail/'' @ id t"

definition title :: "TrailItem \<Rightarrow> error + pyval" where
  "title t = py_getitem (content t) ''title''"

definition number :: "TrailItem \<Rightarrow> error + pyval" where
  "number t = py_get (properties t) ''trailNumber'' (PStr '''')"

definition class_t :: "TrailItem \<Rightarrow> string" where
  "class_t t = objectClass t"

definition gpx_url :: "TrailItem \<Rightarrow> string" where
  "gpx_url t =
     ''https://func-gaiaplaces-aretrails.azurewebsites.net/api/ContentItem/geo/'' @ id t
       @ ''/gpx?networkId='' @ network_id t @ ''&draft=0&code=''"

text \<open>
  \<^verbatim>\<open>length\<close> and \<^verbatim>\<open>length_in_km\<close> go through \<^verbatim>\<open>float\<close>, \<^verbatim>\<open>int\<close>, \<^verbatim>\<open>/\<close> and \<^verbatim>\<open>round\<close>. These
  are modelled exactly on binary64: 53 bits of precision, smallest spacing \<open>2\<^sup>-\<^sup>1\<^sup>0\<^sup>7\<^sup>4\<close>,
  largest finite magnitude below \<open>2\<^sup>1\<^sup>0\<^sup>2\<^sup>4\<close>, rounding to nearest with ties to even.
\<close>

definition round_half_even :: "rat \<Rightarrow> int" where
  "round_half_even x =
     (let f = \<lfloor>x\<rfloor>; r = x - of_int f
      in if r < 1 / 2 then f else if 1 / 2 < r then f + 1 else if even f then f else f + 1)"

text \<open>The position of the leading bit of a positive rational, \<open>\<lfloor>log\<^sub>2 a\<rfloor>\<close>.\<close>

definition ilog2 :: "rat \<Rightarrow> int" where
  "ilog2 a =
     (case quotient_of a of (p, d) \<Rightarrow>
        let k = bitlen p - bitlen d in if 2 powi k \<le> a then k else k - 1)"

text \<open>The binary64 number nearest to a rational; a result of magnitude \<open>2\<^sup>1\<^sup>0\<^sup>2\<^sup>4\<close> or more
  is an infinity.\<close>

definition round_double :: "rat \<Rightarrow> pyfloat" where
  "round_double q =
     (if q = 0 then Fin 0
      else let a = \<bar>q\<bar>;
               e = max (ilog2 a - 52) (- 1074);
               v = of_int (round_half_even (a / 2 powi e)) * 2 powi e
           in if 2 ^ 1024 \<le> v then (if 0 < q then PosInf else NegInf) else Fin (sgn q * v))"

text \<open>\<^verbatim>\<open>float(x)\<close>. The conversion of an \<^verbatim>\<open>int\<close> rounds, and raises \<^verbatim>\<open>OverflowError\<close> when the
  integer is too large. The parser of \<^verbatim>\<open>float(str)\<close> belongs to the interpreter and is a
  parameter \<open>sf\<close> of the model (\<open>None\<close> when the text is not a number).\<close>

type_synonym str_parser = "string \<Rightarrow> pyfloat option"

fun py_float :: "str_parser \<Rightarrow> pyval \<Rightarrow> error + pyfloat" where
  "py_float sf (PFloat x) = Inr x"
| "py_float sf (PInt n) =
     (case round_double (of_int n) of Fin v \<Rightarrow> Inr (Fin v) | _ \<Rightarrow> Inl OverflowError)"
| "py_float sf (PBool b) = Inr (Fin (if b then 1 else 0))"
| "py_float sf (PStr s) =
     (case sf s of None \<Rightarrow> Inl (ValueError ''could not convert string to float'')
      | Some x \<Rightarrow> Inr x)"
| "py_float sf _ = Inl TypeError"

text \<open>\<^verbatim>\<open>int(x)\<close> of a \<^verbatim>\<open>float\<close>: truncation toward zero.\<close>

fun py_int :: "pyfloat \<Rightarrow> error + int" where
  "py_int (Fin q) = Inr (if 0 \<le> q then \<lfloor>q\<rfloor> else \<lceil>q\<rceil>)"
| "py_int NaN = Inl (ValueError ''cannot convert float NaN to integer'')"
| "py_int _ = Inl OverflowError"

text \<open>\<^verbatim>\<open>x / 1000\<close> for a \<^verbatim>\<open>float\<close> \<^verbatim>\<open>x\<close>.\<close>

fun float_div_1000 :: "pyfloat \<Rightarrow> pyfloat" where
  "float_div_1000 (Fin q) = round_double (q / 1000)"
| "float_div_1000 x = x"

text \<open>\<^verbatim>\<open>round(x, 1)\<close>: the exact value of \<^verbatim>\<open>x\<close> is rounded to one decimal (ties to the even
  digit) and the decimal is converted back to the nearest \<^verbatim>\<open>float\<close>; infinities and NaN
  round to themselves.\<close>

fun py_round_1 :: "pyfloat \<Rightarrow> error + pyfloat" where
  "py_round_1 (Fin q) =
     (case round_double (of_int (round_half_even (q * 10)) / 10) of
        Fin v \<Rightarrow> Inr (Fin v) | _ \<Rightarrow> Inl OverflowError)"
| "py_round_1 x = Inr x"

definition length_t :: "str_parser \<Rightarrow> TrailItem \<Rightarrow> error + pyval" where
  "length_t sf t =
     bind_E (py_getitem (properties t) ''trailDistanceMeter'') (\<lambda>c.
       if truthy c then
         bind_E (py_getitem (properties t) ''trailDistanceMeter'') (\<lambda>v.
         bind_E (py_float sf v) (\<lambda>x.
         bind_E (py_int x) (\<lambda>n. Inr (PInt n))))
       else Inr (PInt 0))"

definition length_in_km :: "str_parser \<Rightarrow> TrailItem \<Rightarrow> error + pyval" where
  "length_in_km sf t =
     bind_E (py_getitem (properties t) ''trailDistanceMeter'') (\<lambda>c.
       if truthy c then
         bind_E (py_getitem (properties t) ''trailDistanceMeter'') (\<lambda>v.
         bind_E (py_float sf v) (\<lambda>x.
         bind_E (py_round_1 (float_div_1000 x)) (\<lambda>r. Inr (PFloat r))))
       else Inr (PInt 0))"

text \<open>The value of a field that must be a string, and of a field of any type.\<close>

definition str_field :: "(string \<times> pyval) list \<Rightarrow> string \<Rightarrow> string option" where
  "str_field kvs k = (case map_of kvs k of Some (PStr s) \<Rightarrow> Some s | _ \<Rightarrow> None)"

definition any_field :: "(string \<times> pyval) list \<Rightarrow> string \<Rightarrow> pyval" where
  "any_field kvs k = (case map_of kvs k of Some v \<Rightarrow> v | None \<Rightarrow> PNone)"

text \<open>
  Modelled from the spec: the validation that pydantic's \<^verbatim>\<open>BaseModel\<close> runs in
  \<^verbatim>\<open>TrailItem(**item)\<close> is library code. The fields \<^verbatim>\<open>id\<close>, \<^verbatim>\<open>objectClass\<close> and \<^verbatim>\<open>networkId\<close>
  must be present and strings, otherwise the construction fails with a validation error
  that lists the missing or malformed fields; \<^verbatim>\<open>content\<close> and \<^verbatim>\<open>properties\<close> are stored as
  they are (\<^verbatim>\<open>None\<close> when absent); other keys are ignored. Unpacking \<^verbatim>\<open>**item\<close> itself
  raises \<^verbatim>\<open>TypeError\<close> when \<^verbatim>\<open>item\<close> is not a mapping.
\<close>

fun TrailItem_init :: "pyval \<Rightarrow> error + TrailItem" where
  "TrailItem_init (PDict kvs) =
     (case (str_field kvs ''id'', str_field kvs ''objectClass'', str_field kvs ''networkId'') of
        (Some i, Some c, Some n) \<Rightarrow>
          Inr \<lparr>id = i, objectClass = c, content = any_field kvs ''content'',
               properties = any_field kvs ''properties'', networkId = n\<rparr>
      | _ \<Rightarrow>
          Inl (ValidationError
                (filter (\<lambda>k. str_field kvs k = None) [''id'', ''objectClass'', ''networkId''])))"
| "TrailItem_init _ = Inl TypeError"

section \<open>AreTrailsData\<close>

record AreTrailsData =
  items :: "TrailItem list"
  data :: pyval

text \<open>A list comprehension whose element expression may raise, and one whose condition
  may raise: the elements are visited in order and the first exception ends the
  comprehension.\<close>

fun map_E :: "('a \<Rightarrow> error + 'b) \<Rightarrow> 'a list \<Rightarrow> error + 'b list" where
  "map_E f [] = Inr []"
| "map_E f (x # xs) =
     (case f x of Inl e \<Rightarrow> Inl e
      | Inr y \<Rightarrow> (case map_E f xs of Inl e \<Rightarrow> Inl e | Inr ys \<Rightarrow> Inr (y # ys)))"

fun filter_E :: "('a \<Rightarrow> error + bool) \<Rightarrow> 'a list \<Rightarrow> error + 'a list" where
  "filter_E p [] = Inr []"
| "filter_E p (x # xs) =
     (case p x of Inl e \<Rightarrow> Inl e
      | Inr b \<Rightarrow>
          (case filter_E p xs of Inl e \<Rightarrow> Inl e
           | Inr ys \<Rightarrow> Inr (if b then x # ys else ys)))"

text \<open>Iteration over an object: the elements of a \<^verbatim>\<open>list\<close>, the keys of a \<^verbatim>\<open>dict\<close>, the
  characters of a \<^verbatim>\<open>str\<close>; nothing else that JSON produces is iterable.\<close>

fun py_iter :: "pyval \<Rightarrow> error + pyval list" where
  "py_iter (PList xs) = Inr xs"
| "py_iter (PDict kvs) = Inr (map (\<lambda>kv. PStr (fst kv)) kvs)"
| "py_iter (PStr s) = Inr (map (\<lambda>c. PStr [c]) s)"
| "py_iter _ = Inl TypeError"

text \<open>\<^verbatim>\<open>parse_items\<close> returns what the call does (\<open>Inl\<close> the exception raised) and the object
  after the call: the assignment to \<^verbatim>\<open>self.items\<close> happens only once the whole comprehension
  has been evaluated.\<close>

definition parse_items :: "AreTrailsData \<Rightarrow> (error + unit) \<times> AreTrailsData" where
  "parse_items d =
     (case bind_E (bind_E (py_getitem (data d) ''items'') py_iter) (map_E TrailItem_init) of
        Inl e \<Rightarrow> (Inl e, d)
      | Inr ts \<Rightarrow> (Inr (), d\<lparr>items := ts\<rparr>))"

text \<open>The condition \<^verbatim>\<open>item.class_ == "trail" and c\<close> of the filtered views: \<^verbatim>\<open>c\<close> is evaluated
  for trails only.\<close>

definition trail_and :: "(TrailItem \<Rightarrow> error + bool) \<Rightarrow> TrailItem \<Rightarrow> error + bool" where
  "trail_and c item = (if class_t item = ''trail'' then c item else Inr False)"

text \<open>\<^verbatim>\<open>a or b\<close> on the results of the boolean accessors.\<close>

definition or_E :: "error + bool \<Rightarrow> error + bool \<Rightarrow> error + bool" where
  "or_E a b = bind_E a (\<lambda>x. if x then Inr True else b)"

definition trails :: "AreTrailsData \<Rightarrow> TrailItem list" where
  "trails d = filter (\<lambda>item. class_t item = ''trail'') (items d)"

definition multitrails :: "AreTrailsData \<Rightarrow> error + TrailItem list" where
  "multitrails d =
     filter_E (trail_and (\<lambda>item. bind_E (is_multitrail item) (\<lambda>v. Inr (truthy v)))) (items d)"

definition riding_trails :: "AreTrailsData \<Rightarrow> error + TrailItem list" where
  "riding_trails d = filter_E (trail_and has_riding_activity) (items d)"

definition bicycle_trails :: "AreTrailsData \<Rightarrow> error + TrailItem list" where
  "bicycle_trails d = filter_E (trail_and has_bike_activity) (items d)"

definition hiking_trails :: "AreTrailsData \<Rightarrow> error + TrailItem list" where
  "hiking_trails d = filter_E (trail_and has_hike_activity) (items d)"

definition running_trails :: "AreTrailsData \<Rightarrow> error + TrailItem list" where
  "running_trails d = filter_E (trail_and has_running_activity) (items d)"

definition trails_with_activity :: "AreTrailsData \<Rightarrow> error + TrailItem list" where
  "trails_with_activity d =
     filter_E (trail_and (\<lambda>item. bind_E (activity item) (\<lambda>a. Inr (a \<noteq> PDict [])))) (items d)"

definition trails_without_activity :: "AreTrailsData \<Rightarrow> error + TrailItem list" where
  "trails_without_activity d =
     filter_E (trail_and (\<lambda>item. bind_E (activity item) (\<lambda>a. Inr (a = PDict [])))) (items d)"

definition trails_with_unsupported_activity :: "AreTrailsData \<Rightarrow> error + TrailItem list" where
  "trails_with_unsupported_activity d =
     filter_E (trail_and (\<lambda>item.
         bind_E (or_E (has_hike_activity item)
                  (or_E (has_riding_activity item)
                    (or_E (has_bike_activity item) (has_running_activity item))))
           (\<lambda>b. Inr (\<not> b))))
       (items d)"

text \<open>
  The CSV file is modelled as the list of records handed to the \<^verbatim>\<open>csv\<close> writer, each the
  list of its field values in the order of \<^verbatim>\<open>fieldnames\<close>; the quoting and the text of a
  record are the library's. Failures of the file system are outside the model.
\<close>

type_synonym csv_file = "pyval list list"

definition fieldnames :: "string list" where
  "fieldnames =
     [''title'', ''number'', ''activity_key'', ''multitrail'', ''length'', ''url'', ''gpx'']"

text \<open>The dictionary passed to \<^verbatim>\<open>writerow\<close>, its values evaluated in the order written.\<close>

definition trail_row :: "str_parser \<Rightarrow> TrailItem \<Rightarrow> error + pyval list" where
  "trail_row sf trail =
     bind_E (title trail) (\<lambda>v1.
     bind_E (number trail) (\<lambda>v2.
     bind_E (activity_key trail) (\<lambda>v3.
     bind_E (is_multitrail trail) (\<lambda>v4.
     bind_E (length_t sf trail) (\<lambda>v5.
       Inr [v1, v2, v3, v4, v5, PStr (url trail), PStr (gpx_url trail)])))))"

text \<open>The loop over \<^verbatim>\<open>self.trails\<close>: an exception leaves the records written so far in the
  file.\<close>

fun write_rows :: "str_parser \<Rightarrow> TrailItem list \<Rightarrow> csv_file \<Rightarrow> (error + unit) \<times> csv_file" where
  "write_rows sf [] f = (Inr (), f)"
| "write_rows sf (trail # ts) f =
     (case trail_row sf trail of
        Inl e \<Rightarrow> (Inl e, f)
      | Inr r \<Rightarrow> write_rows sf ts (f @ [r]))"

text \<open>The file is opened with mode \<^verbatim>\<open>"w"\<close>: it starts empty, whatever it held before.\<close>

definition export_trails_to_csv :: "str_parser \<Rightarrow> AreTrailsData \<Rightarrow> (error + unit) \<times> csv_file" where
  "export_trails_to_csv sf d = write_rows sf (trails d) ([] @ [map PStr fieldnames])"

text \<open>The data model of the specification: a content that is a non-empty mapping, and a
  catalog item that is a JSON object.\<close>

fun nonempty_mapping :: "pyval \<Rightarrow> bool" where
  "nonempty_mapping (PDict kvs) = (kvs \<noteq> [])"
| "nonempty_mapping _ = False"

fun is_object :: "pyval \<Rightarrow> bool" where
  "is_object (PDict kvs) = True"
| "is_object _ = False"

text \<open>The numbers whose conversion by \<^verbatim>\<open>float\<close> is exact: an \<^verbatim>\<open>int\<close> of magnitude at most
  \<open>2\<^sup>5\<^sup>3\<close> and a finite \<^verbatim>\<open>float\<close>, with the rational they denote.\<close>

fun numeric_value :: "pyval \<Rightarrow> rat option" where
  "numeric_value (PInt n) = (if \<bar>n\<bar> \<le> 2 ^ 53 then Some (of_int n) else None)"
| "numeric_value (PFloat (Fin q)) = (if \<bar>q\<bar> < 2 ^ 1024 then Some q else None)"
| "numeric_value _ = None"

section \<open>Example data\<close>

text \<open>Two trails and a catalog item of another class, as the API delivers them, and a
  \<^verbatim>\<open>float(str)\<close> that accepts no text.\<close>

definition no_text :: str_parser where
  "no_text = (\<lambda>s. None)"

definition raw_loop_a :: pyval where
  "raw_loop_a = PDict
     [(''id'', PStr ''a1''), (''objectClass'', PStr ''trail''), (''networkId'', PStr ''net''),
      (''content'', PDict [(''title'', PStr ''Loop A''),
         (''activity'', PDict [(''key'', PStr ''hiking-easy''), (''value'', PStr ''Easy'')])]),
      (''properties'', PDict [(''isMultiTrail'', PBool False),
         (''trailDistanceMeter'', PInt 3500), (''trailNumber'', PStr ''12'')])]"

definition raw_loop_b :: pyval where
  "raw_loop_b = PDict
     [(''id'', PStr ''b2''), (''objectClass'', PStr ''trail''), (''networkId'', PStr ''net''),
      (''content'', PDict [(''title'', PStr ''Loop B, with comma'')]),
      (''properties'', PDict [(''isMultiTrail'', PBool True), (''trailDistanceMeter'', PInt 0)])]"

definition raw_poi :: pyval where
  "raw_poi = PDict
     [(''id'', PStr ''p3''), (''objectClass'', PStr ''poi''), (''networkId'', PStr ''net'')]"

definition raw_broken :: pyval where
  "raw_broken = PDict [(''objectClass'', PStr ''trail''), (''networkId'', PStr ''net'')]"

definition loop_a :: TrailItem where
  "loop_a = \<lparr>id = ''a1'', objectClass = ''trail'',
     content = PDict [(''title'', PStr ''Loop A''),
         (''activity'', PDict [(''key'', PStr ''hiking-easy''), (''value'', PStr ''Easy'')])],
     properties = PDict [(''isMultiTrail'', PBool False),
         (''trailDistanceMeter'', PInt 3500), (''trailNumber'', PStr ''12'')],
     networkId = ''net''\<rparr>"

definition loop_b :: TrailItem where
  "loop_b = \<lparr>id = ''b2'', objectClass = ''trail'',
     content = PDict [(''title'', PStr ''Loop B, with comma'')],
     properties = PDict [(''isMultiTrail'', PBool True), (''trailDistanceMeter'', PInt 0)],
     networkId = ''net''\<rparr>"

definition poi :: TrailItem where
  "poi = \<lparr>id = ''p3'', objectClass = ''poi'', content = PNone, properties = PNone,
     networkId = ''net''\<rparr>"

definition fetched :: AreTrailsData where
  "fetched = \<lparr>items = [], data = PDict [(''items'', PList [raw_loop_a, raw_poi, raw_loop_b])]\<rparr>"

definition fetched_broken :: AreTrailsData where
  "fetched_broken =
     \<lparr>items = [], data = PDict [(''items'', PList [raw_loop_a, raw_broken, raw_loop_b])]\<rparr>"

definition parsed :: AreTrailsData where
  "parsed = \<lparr>items = [loop_a, poi, loop_b],
     data = PDict [(''items'', PList [raw_loop_a, raw_poi, raw_loop_b])]\<rparr>"

text \<open>A trail whose activity has no key, and a trail with given \<^verbatim>\<open>properties\<close>.\<close>

definition keyless_trail :: TrailItem where
  "keyless_trail = \<lparr>id = ''k5'', objectClass = ''trail'',
     content = PDict [(''title'', PStr ''Loop K''), (''activity'', PDict [(''value'', PStr ''DH'')])],
     properties = PDict [(''isMultiTrail'', PBool False), (''trailDistanceMeter'', PInt 100)],
     networkId = ''net''\<rparr>"

definition with_distance :: "(string \<times> pyval) list \<Rightarrow> TrailItem" where
  "with_distance kvs = \<lparr>id = ''d6'', objectClass = ''trail'',
     content = PDict [(''title'', PStr ''Loop D'')], properties = PDict kvs, networkId = ''net''\<rparr>"

section \<open>Basic facts\<close>

lemma bind_E_simps [simp]:
  "bind_E (Inl e) f = Inl e"
  "bind_E (Inr x) f = f x"
  by (simp_all add: bind_E_def)

lemmas accessor_defs = activity_def activity_key_def has_running_activity_def
  has_riding_activity_def has_hike_activity_def has_bike_activity_def is_multitrail_def
  title_def number_def class_t_def url_def gpx_url_def network_id_def py_or_def
  trail_and_def or_E_def

lemmas view_defs = trails_def multitrails_def riding_trails_def bicycle_trails_def
  hiking_trails_def running_trails_def trails_with_activity_def trails_without_activity_def
  trails_with_unsupported_activity_def

lemmas example_defs = loop_a_def loop_b_def poi_def parsed_def fetched_def fetched_broken_def
  raw_loop_a_def raw_loop_b_def raw_poi_def raw_broken_def
  keyless_trail_def with_distance_def no_text_def

subsection \<open>Comprehensions\<close>

lemma filter_E_Inr:
  "filter_E p xs = Inr ys \<Longrightarrow> ys = filter (\<lambda>x. p x = Inr True) xs"
  by (induction xs arbitrary: ys) (auto split: sum.splits if_splits)

lemma filter_E_total:
  "(\<forall>x\<in>set xs. \<exists>b. p x = Inr b) \<Longrightarrow> filter_E p xs = Inr (filter (\<lambda>x. p x = Inr True) xs)"
  by (induction xs) (auto split: sum.splits)

lemma trail_and_True:
  "trail_and c x = Inr True \<Longrightarrow> class_t x = ''trail''"
  by (simp add: trail_and_def split: if_splits)

lemma view_filter:
  assumes "filter_E (trail_and c) xs = Inr ys"
  shows "ys = filter (\<lambda>x. c x = Inr True) (filter (\<lambda>x. class_t x = ''trail'') xs)"
proof -
  have "ys = filter (\<lambda>x. trail_and c x = Inr True) xs"
    using assms by (rule filter_E_Inr)
  also have "\<dots> = filter (\<lambda>x. c x = Inr True) (filter (\<lambda>x. class_t x = ''trail'') xs)"
    by (induction xs) (auto simp: trail_and_def)
  finally show ?thesis .
qed

lemma view_props:
  assumes "filter_E (trail_and c) (items d) = Inr ys"
  shows "subseq ys (items d)" and "subseq ys (trails d)" and "\<forall>y\<in>set ys. objectClass y = ''trail''"
proof -
  have ys: "ys = filter (\<lambda>x. c x = Inr True) (trails d)"
    using view_filter [OF assms] by (simp add: trails_def)
  show "subseq ys (trails d)" by (simp add: ys)
  moreover have "subseq (trails d) (items d)" by (simp add: trails_def)
  ultimately show "subseq ys (items d)" by (rule subseq_order.trans)
  show "\<forall>y\<in>set ys. objectClass y = ''trail''"
    by (auto simp: ys trails_def class_t_def)
qed

lemma view_total:
  assumes "\<forall>t\<in>set (trails d). \<exists>b. c t = Inr b"
  shows "filter_E (trail_and c) (items d) = Inr (filter (\<lambda>x. c x = Inr True) (trails d))"
proof -
  have "\<exists>b. trail_and c x = Inr b" if "x \<in> set (items d)" for x
  proof (cases "class_t x = ''trail''")
    case True
    with that have "x \<in> set (trails d)" by (simp add: trails_def)
    with assms True show ?thesis by (simp add: trail_and_def)
  next
    case False
    then show ?thesis by (auto simp add: trail_and_def)
  qed
  then have "\<forall>x\<in>set (items d). \<exists>b. trail_and c x = Inr b" by blast
  then have e: "filter_E (trail_and c) (items d)
      = Inr (filter (\<lambda>x. trail_and c x = Inr True) (items d))"
    by (rule filter_E_total)
  then show ?thesis
    using view_filter [OF e] by (simp add: trails_def)
qed

lemma map_E_fail:
  "\<exists>x\<in>set xs. \<exists>e. f x = Inl e \<Longrightarrow> \<exists>e. map_E f xs = Inl e \<and> (\<exists>x\<in>set xs. f x = Inl e)"
proof (induction xs)
  case Nil
  then show ?case by simp
next
  case (Cons a xs)
  show ?case
  proof (cases "f a")
    case (Inl e)
    then show ?thesis by auto
  next
    case (Inr y)
    with Cons.prems have "\<exists>x\<in>set xs. \<exists>e. f x = Inl e" by auto
    then obtain e where "map_E f xs = Inl e" "\<exists>x\<in>set xs. f x = Inl e"
      using Cons.IH by blast
    with Inr show ?thesis by auto
  qed
qed

lemma map_E_ok:
  "\<forall>x\<in>set xs. \<exists>y. f x = Inr y \<Longrightarrow> \<exists>ys. map_E f xs = Inr ys \<and> map Inr ys = map f xs"
proof (induction xs)
  case Nil
  then show ?case by simp
next
  case (Cons a xs)
  then obtain y where y: "f a = Inr y" by auto
  from Cons obtain ys where "map_E f xs = Inr ys" "map Inr ys = map f xs" by auto
  with y show ?case by auto
qed

lemma write_rows_ok:
  "\<forall>t\<in>set ts. \<exists>r. trail_row sf t = Inr r \<Longrightarrow>
   \<exists>rows. write_rows sf ts f = (Inr (), f @ rows) \<and> map Inr rows = map (trail_row sf) ts"
proof (induction ts arbitrary: f)
  case Nil
  then show ?case by simp
next
  case (Cons t ts)
  then obtain r where r: "trail_row sf t = Inr r" by auto
  from Cons.prems have "\<forall>t\<in>set ts. \<exists>r. trail_row sf t = Inr r" by simp
  then obtain rows where "write_rows sf ts (f @ [r]) = (Inr (), (f @ [r]) @ rows)"
      "map Inr rows = map (trail_row sf) ts"
    using Cons.IH by blast
  with r have "write_rows sf (t # ts) f = (Inr (), f @ (r # rows)) \<and>
      map Inr (r # rows) = map (trail_row sf) (t # ts)" by simp
  then show ?case by blast
qed

lemma TrailItem_init_object_error:
  "is_object x \<Longrightarrow> TrailItem_init x = Inl e \<Longrightarrow> \<exists>fs. e = ValidationError fs"
  by (cases x) (auto split: option.splits)

lemma activity_of_mapping:
  "nonempty_mapping (content t) \<Longrightarrow> \<exists>a. activity t = Inr a"
  by (cases "content t") (simp_all add: activity_def)

subsection \<open>Rounding to binary64\<close>

lemma round_half_even_of_int: "round_half_even (of_int n) = n"
  by (simp add: round_half_even_def)

lemma round_half_even_err: "\<bar>of_int (round_half_even x) - x\<bar> \<le> 1 / 2"
proof -
  have "of_int \<lfloor>x\<rfloor> \<le> x" "x < of_int \<lfloor>x\<rfloor> + 1" by linarith+
  then show ?thesis
    by (auto simp: round_half_even_def Let_def)
qed

lemma ilog2_le:
  assumes "0 < a"
  shows "2 powi (ilog2 a) \<le> a"
proof -
  obtain p d where pd: "quotient_of a = (p, d)" by (cases "quotient_of a")
  have d: "0 < d" using pd by (rule quotient_of_denom_pos)
  have a: "a = of_int p / of_int d" using pd by (rule quotient_of_div)
  have p: "0 < p" using assms d a by (simp add: zero_less_divide_iff)
  define k where "k = bitlen p - bitlen d"
  have bp: "(2::rat) powi (bitlen p - 1) \<le> of_int p"
  proof -
    have "2 ^ nat (bitlen p - 1) \<le> p" using bitlen_bounds [OF p] by simp
    then have "(of_int (2 ^ nat (bitlen p - 1)) :: rat) \<le> of_int p" by (simp only: of_int_le_iff)
    moreover have "bitlen p - 1 \<ge> 0" using p by (simp add: bitlen_alt_def)
    ultimately show ?thesis by (simp add: power_int_def)
  qed
  have bd: "of_int d \<le> (2::rat) powi (bitlen d)"
  proof -
    have "d < 2 ^ nat (bitlen d)" using bitlen_bounds [OF d] by simp
    then have "(of_int d :: rat) < of_int (2 ^ nat (bitlen d))" by (simp only: of_int_less_iff)
    then show ?thesis using bitlen_nonneg [of d] by (simp add: power_int_def)
  qed
  have "(2::rat) powi (k - 1) = 2 powi (bitlen p - 1) / 2 powi (bitlen d)"
    by (simp add: k_def power_int_diff)
  also have "\<dots> \<le> of_int p / of_int d"
    using bp bd d p by (intro frac_le) auto
  finally have low: "(2::rat) powi (k - 1) \<le> a" using a by simp
  show ?thesis
    using low pd by (simp add: ilog2_def k_def Let_def)
qed

lemma ilog2_upper:
  assumes "0 < a"
  shows "a < 2 powi (ilog2 a + 1)"
proof -
  obtain p d where pd: "quotient_of a = (p, d)" by (cases "quotient_of a")
  have d: "0 < d" using pd by (rule quotient_of_denom_pos)
  have a: "a = of_int p / of_int d" using pd by (rule quotient_of_div)
  have p: "0 < p" using assms d a by (simp add: zero_less_divide_iff)
  define k where "k = bitlen p - bitlen d"
  have bp: "of_int p < (2::rat) powi (bitlen p)"
  proof -
    have "p < 2 ^ nat (bitlen p)" using bitlen_bounds [OF p] by simp
    then have "(of_int p :: rat) < of_int (2 ^ nat (bitlen p))" by (simp only: of_int_less_iff)
    then show ?thesis using bitlen_nonneg [of p] by (simp add: power_int_def)
  qed
  have bd: "(2::rat) powi (bitlen d - 1) \<le> of_int d"
  proof -
    have "2 ^ nat (bitlen d - 1) \<le> d" using bitlen_bounds [OF d] by simp
    then have "(of_int (2 ^ nat (bitlen d - 1)) :: rat) \<le> of_int d" by (simp only: of_int_le_iff)
    moreover have "bitlen d - 1 \<ge> 0" using d by (simp add: bitlen_alt_def)
    ultimately show ?thesis by (simp add: power_int_def)
  qed
  have "of_int p / of_int d < (2::rat) powi (bitlen p) / 2 powi (bitlen d - 1)"
    using bp bd d p by (intro frac_less) auto
  also have "\<dots> = 2 powi (k + 1)"
    by (simp add: k_def power_int_diff power_int_add)
  finally have up: "a < 2 powi (k + 1)" using a by simp
  show ?thesis
  proof (cases "(2::rat) powi k \<le> a")
    case True
    then show ?thesis using up pd by (simp add: ilog2_def k_def Let_def)
  next
    case False
    then show ?thesis using pd by (simp add: ilog2_def k_def Let_def)
  qed
qed

lemma ilog2_less:
  assumes "0 < a" and "a < 2 powi n"
  shows "ilog2 a < n"
proof (rule ccontr)
  assume "\<not> ilog2 a < n"
  then have "n \<le> ilog2 a" by simp
  then have "(2::rat) powi n \<le> 2 powi (ilog2 a)"
    by (rule power_int_increasing) simp
  also have "\<dots> \<le> a" by (rule ilog2_le [OF assms(1)])
  finally show False using assms(2) by simp
qed

lemma round_double_exact:
  assumes "0 < a" and "\<exists>m::int. a / 2 powi (max (ilog2 a - 52) (- 1074)) = of_int m"
    and "a < 2 ^ 1024"
  shows "round_double a = Fin a" and "round_double (- a) = Fin (- a)"
proof -
  define e where "e = max (ilog2 a - 52) (- 1074)"
  obtain m :: int where m: "a / 2 powi e = of_int m" using assms(2) e_def by blast
  have "a = of_int m * 2 powi e"
    using m by (simp add: field_simps)
  then have v: "of_int (round_half_even (a / 2 powi e)) * 2 powi e = a"
    by (simp add: m round_half_even_of_int)
  show "round_double a = Fin a"
    using assms(1,3) v by (simp add: round_double_def Let_def flip: e_def)
  show "round_double (- a) = Fin (- a)"
    using assms(1,3) v by (simp add: round_double_def Let_def flip: e_def)
qed

lemma round_double_int:
  assumes "n \<noteq> 0" and "\<bar>n\<bar> \<le> 2 ^ 53"
  shows "round_double (of_int n) = Fin (of_int n)"
proof -
  define a :: rat where "a = of_int \<bar>n\<bar>"
  have a0: "0 < a" using assms(1) by (simp add: a_def)
  have a53: "a \<le> 2 ^ 53"
  proof -
    have "(of_int \<bar>n\<bar> :: rat) \<le> of_int (2 ^ 53)" using assms(2) by (simp only: of_int_le_iff)
    then show ?thesis by (simp add: a_def)
  qed
  define e where "e = max (ilog2 a - 52) (- 1074)"
  have "a < 2 powi 54" using a53 by simp
  then have "ilog2 a < 54" using a0 by (rule ilog2_less [rotated])
  then have e1: "e \<le> 1" by (simp add: e_def)
  have ex: "\<exists>m::int. a / 2 powi e = of_int m"
  proof (cases "e \<le> 0")
    case True
    then have "a / 2 powi e = of_int (\<bar>n\<bar> * 2 ^ nat (- e))"
      by (simp add: a_def power_int_def field_simps)
    then show ?thesis by blast
  next
    case False
    with e1 have e: "e = 1" by simp
    then have "52 < ilog2 a" by (simp add: e_def max_def split: if_splits)
    then have "(2::rat) powi 53 \<le> 2 powi (ilog2 a)"
      by (intro power_int_increasing) simp_all
    then have "2 ^ 53 \<le> a" using ilog2_le [OF a0] by simp
    with a53 have "a = 2 ^ 53" by simp
    then have "a / 2 powi e = of_int (2 ^ 52)" by (simp add: e)
    then show ?thesis by blast
  qed
  have big: "a < 2 ^ 1024" using a53 by simp
  have r: "round_double a = Fin a" "round_double (- a) = Fin (- a)"
    using round_double_exact [OF a0 _ big] ex e_def by simp_all
  show ?thesis
  proof (cases "0 < n")
    case True
    then have "of_int n = a" by (simp add: a_def)
    then show ?thesis using r(1) by simp
  next
    case False
    then have "of_int n = - a" by (simp add: a_def)
    then show ?thesis using r(2) by simp
  qed
qed

lemma round_double_finite:
  assumes "\<bar>x\<bar> < 2 ^ 1023"
  shows "\<exists>y. round_double x = Fin y \<and> \<bar>y\<bar> \<le> 2 * \<bar>x\<bar> + 1"
proof (cases "x = 0")
  case True
  then show ?thesis by (simp add: round_double_def)
next
  case False
  define a where "a = \<bar>x\<bar>"
  have a0: "0 < a" using False by (simp add: a_def)
  define e where "e = max (ilog2 a - 52) (- 1074)"
  define v :: rat where "v = of_int (round_half_even (a / 2 powi e)) * 2 powi e"
  have p: "(0::rat) < 2 powi e" by simp
  define r :: rat where "r = of_int (round_half_even (a / 2 powi e))"
  have re: "\<bar>r - a / 2 powi e\<bar> \<le> 1 / 2"
    unfolding r_def by (rule round_half_even_err)
  have "v - a = (r - a / 2 powi e) * 2 powi e"
    by (simp add: v_def r_def left_diff_distrib)
  then have "\<bar>v - a\<bar> = \<bar>r - a / 2 powi e\<bar> * 2 powi e"
    by (simp add: abs_mult)
  also have "\<dots> \<le> 1 / 2 * 2 powi e"
    using re p by (intro mult_right_mono) simp_all
  finally have err: "\<bar>v - a\<bar> \<le> 2 powi e / 2" by simp
  have v0: "0 \<le> v"
  proof -
    have "0 \<le> a / 2 powi e" using a0 by simp
    then have "0 \<le> round_half_even (a / 2 powi e)"
      by (auto simp: round_half_even_def Let_def)
    then show ?thesis by (simp add: v_def)
  qed
  have step: "2 powi e / 2 \<le> a / 2 ^ 53 + 1"
  proof (cases "ilog2 a - 52 \<le> - 1074")
    case True
    then have "e = - 1074" by (simp add: e_def)
    then have "(2::rat) powi e \<le> 1" by (simp add: power_int_def power_le_one)
    then show ?thesis using a0 by simp
  next
    case False
    then have "e = ilog2 a - 52" by (simp add: e_def)
    then have "(2::rat) powi e = 2 powi (ilog2 a) / 2 ^ 52"
      by (simp add: power_int_diff)
    also have "\<dots> \<le> a / 2 ^ 52"
      using ilog2_le [OF a0] by (simp add: divide_right_mono)
    finally show ?thesis using a0 by simp
  qed
  have vb: "v \<le> a + a / 2 ^ 53 + 1" using err step by linarith
  have "v < 2 ^ 1024" using vb assms by (simp add: a_def)
  then have r: "round_double x = Fin (sgn x * v)"
    using False by (simp add: round_double_def Let_def flip: a_def e_def v_def)
  have "\<bar>sgn x * v\<bar> = v" using False v0 by (simp add: abs_mult)
  moreover have "v \<le> 2 * a + 1" using vb a0 by simp
  ultimately show ?thesis using r by (simp add: a_def)
qed

lemma py_float_numeric:
  "numeric_value v = Some q \<Longrightarrow> py_float sf v = Inr (Fin q)"
proof (induction v rule: numeric_value.induct)
  case (1 n)
  then have n: "\<bar>n\<bar> \<le> 2 ^ 53" "q = of_int n" by (auto split: if_splits)
  show ?case
  proof (cases "n = 0")
    case True
    with n show ?thesis by (simp add: round_double_def)
  next
    case False
    with n show ?thesis by (simp add: round_double_int)
  qed
qed (auto split: if_splits)

lemma truthy_numeric:
  "numeric_value v = Some q \<Longrightarrow> truthy v = (q \<noteq> 0)"
  by (induction v rule: numeric_value.induct) (auto split: if_splits)

lemma numeric_value_bound:
  "numeric_value v = Some q \<Longrightarrow> \<bar>q\<bar> < 2 ^ 1024"
proof (induction v rule: numeric_value.induct)
  case (1 n)
  then have n: "\<bar>n\<bar> \<le> 2 ^ 53" "q = of_int n" by (auto split: if_splits)
  have "(of_int \<bar>n\<bar> :: rat) \<le> of_int (2 ^ 53)" using n(1) by (simp only: of_int_le_iff)
  then have "\<bar>q\<bar> \<le> 2 ^ 53" using n(2) by simp
  then show ?case by simp
qed (auto split: if_splits)

lemma round_km:
  assumes "\<bar>q\<bar> < 2 ^ 1024"
  shows "\<exists>y r. round_double (q / 1000) = Fin y \<and>
           \<bar>of_int (round_half_even (y * 10)) / 10 - y\<bar> \<le> 1 / 20 \<and>
           round_double (of_int (round_half_even (y * 10)) / 10) = Fin r \<and>
           py_round_1 (float_div_1000 (Fin q)) = Inr (Fin r)"
proof -
  have "\<bar>q / 1000\<bar> < 2 ^ 1023" using assms by simp
  then obtain y where y: "round_double (q / 1000) = Fin y" "\<bar>y\<bar> \<le> 2 * \<bar>q / 1000\<bar> + 1"
    using round_double_finite by blast
  define k where "k = round_half_even (y * 10)"
  have "\<bar>of_int k - y * 10\<bar> \<le> 1 / 2"
    unfolding k_def by (rule round_half_even_err)
  then have near: "\<bar>of_int k / 10 - y\<bar> \<le> 1 / 20" by linarith
  then have "\<bar>of_int k / 10 :: rat\<bar> \<le> \<bar>y\<bar> + 1 / 20" by linarith
  then have "\<bar>of_int k / 10 :: rat\<bar> < 2 ^ 1023" using y(2) assms by simp
  then obtain r where r: "round_double (of_int k / 10) = Fin r"
    using round_double_finite by blast
  have "py_round_1 (float_div_1000 (Fin q)) = Inr (Fin r)"
    using y(1) r by (simp add: k_def)
  with y(1) near r show ?thesis unfolding k_def by blast
qed

lemma length_t_int:
  assumes "properties t = PDict kvs" and "map_of kvs ''trailDistanceMeter'' = Some (PInt n)"
    and "\<bar>n\<bar> \<le> 2 ^ 53"
  shows "length_t sf t = Inr (PInt n)"
proof -
  have "py_float sf (PInt n) = Inr (Fin (of_int n))"
    using assms(3) by (intro py_float_numeric) simp
  then show ?thesis using assms(1,2) by (simp add: length_t_def)
qed

text \<open>Fields with which every row accessor returns.\<close>

lemma trail_row_returns:
  assumes "content t = PDict ckvs" and "map_of ckvs ''title'' = Some ti"
    and "map_of ckvs ''activity'' = None \<or> (\<exists>akvs. map_of ckvs ''activity'' = Some (PDict akvs))"
    and "properties t = PDict pkvs" and "map_of pkvs ''isMultiTrail'' = Some m"
    and "map_of pkvs ''trailDistanceMeter'' = Some dv"
    and "\<not> truthy dv \<or> (\<exists>q. numeric_value dv = Some q)"
  shows "\<exists>r. trail_row sf t = Inr r"
proof -
  have ne: "ckvs \<noteq> []" using assms(2) by auto
  have k: "\<exists>k. activity_key t = Inr k"
    using assms(1,3) ne by (auto simp: activity_key_def activity_def)
  have l: "\<exists>n. length_t sf t = Inr n"
  proof (cases "truthy dv")
    case False
    then show ?thesis using assms(4,6) by (simp add: length_t_def)
  next
    case True
    with assms(7) obtain q where "numeric_value dv = Some q" by blast
    then have "py_float sf dv = Inr (Fin q)" by (rule py_float_numeric)
    then show ?thesis using True assms(4,6) by (simp add: length_t_def)
  qed
  from k l show ?thesis
    using assms(1,2,4,5) by (auto simp: trail_row_def title_def number_def is_multitrail_def)
qed

subsection \<open>The example data\<close>

lemma parsed_views:
  "trails parsed = [loop_a, loop_b]"
  "multitrails parsed = Inr [loop_b]"
  "riding_trails parsed = Inr []"
  "bicycle_trails parsed = Inr [loop_a, loop_b]"
  "hiking_trails parsed = Inr [loop_a]"
  "running_trails parsed = Inr []"
  "trails_with_activity parsed = Inr [loop_a]"
  "trails_without_activity parsed = Inr [loop_b]"
  "trails_with_unsupported_activity parsed = Inr []"
  by (simp_all add: view_defs accessor_defs example_defs sublist_code)

lemma parse_fetched: "parse_items fetched = (Inr (), parsed)"
  by (simp add: parse_items_def example_defs str_field_def any_field_def)

lemma parse_fetched_broken:
  "parse_items fetched_broken = (Inl (ValidationError [''id'']), fetched_broken)"
  by (simp add: parse_items_def example_defs str_field_def any_field_def)

lemma init_examples:
  "TrailItem_init raw_loop_a = Inr loop_a"
  "TrailItem_init raw_poi = Inr poi"
  "TrailItem_init raw_loop_b = Inr loop_b"
  "TrailItem_init raw_broken = Inl (ValidationError [''id''])"
  by (simp_all add: example_defs str_field_def any_field_def)

lemma length_examples:
  "length_t no_text loop_a = Inr (PInt 3500)"
  "length_t no_text loop_b = Inr (PInt 0)"
  by (rule length_t_int [where kvs = "[(''isMultiTrail'', PBool False),
         (''trailDistanceMeter'', PInt 3500), (''trailNumber'', PStr ''12'')]"];
      simp add: loop_a_def)
    (simp add: length_t_def loop_b_def)

lemma row_examples:
  "trail_row no_text loop_a =
     Inr [PStr ''Loop A'', PStr ''12'', PStr ''hiking-easy'', PBool False, PInt 3500,
          PStr ''https://www.aretrails.com/trail/a1'',
          PStr (''https://func-gaiaplaces-aretrails.azurewebsites.net/api/ContentItem/geo/a1''
                @ ''/gpx?networkId=net&draft=0&code='')]"
  "trail_row no_text loop_b =
     Inr [PStr ''Loop B, with comma'', PStr [], PStr [], PBool True, PInt 0,
          PStr ''https://www.aretrails.com/trail/b2'',
          PStr (''https://func-gaiaplaces-aretrails.azurewebsites.net/api/ContentItem/geo/b2''
                @ ''/gpx?networkId=net&draft=0&code='')]"
  by (simp_all add: trail_row_def length_examples)
    (simp_all add: accessor_defs loop_a_def loop_b_def)

section \<open>The claims\<close>

text \<open>
  Claim C1. \<^verbatim>\<open>has_bike_activity\<close> returns \<^verbatim>\<open>True\<close> for every item, whatever its
  \<^verbatim>\<open>activity_key\<close> is: the left operand of \<^verbatim>\<open>or\<close> is a non-empty string literal, so the
  substring test, and with it \<^verbatim>\<open>activity_key\<close>, is never evaluated. In particular this
  holds for every item whose content is non-empty.
\<close>

theorem has_bike_activity_always_true:
  "has_bike_activity t = Inr True"
  by (simp add: has_bike_activity_def py_or_def)

text \<open>
  Claim C2, as amended. Let \<^verbatim>\<open>properties\<close> be a mapping. When \<^verbatim>\<open>trailDistanceMeter\<close> is absent,
  \<^verbatim>\<open>length\<close> and \<^verbatim>\<open>length_in_km\<close> raise \<^verbatim>\<open>KeyError\<close>; when it is present and false (\<^verbatim>\<open>null\<close>,
  zero, empty), both return \<^verbatim>\<open>0\<close>; when it is a non-zero number \<open>q\<close>, \<^verbatim>\<open>length\<close> returns \<open>q\<close>
  truncated toward zero, which is \<open>\<lfloor>q\<rfloor>\<close> for \<open>q \<ge> 0\<close>, and \<^verbatim>\<open>length_in_km\<close> returns a float
  \<open>r\<close> obtained in three roundings: \<open>y\<close> is the binary64 quotient \<open>q / 1000\<close>, \<open>k / 10\<close> is a
  one-decimal number nearest to \<open>y\<close> (ties to the even \<open>k\<close>), and \<open>r\<close> is the binary64 number
  nearest to \<open>k / 10\<close>.
\<close>

theorem length_by_cases:
  assumes "properties t = PDict kvs"
  shows
   "(map_of kvs ''trailDistanceMeter'' = None \<longrightarrow>
       length_t sf t = Inl (KeyError ''trailDistanceMeter'') \<and>
       length_in_km sf t = Inl (KeyError ''trailDistanceMeter'')) \<and>
    (\<forall>v. map_of kvs ''trailDistanceMeter'' = Some v \<and> \<not> truthy v \<longrightarrow>
       length_t sf t = Inr (PInt 0) \<and> length_in_km sf t = Inr (PInt 0)) \<and>
    (\<forall>v q. map_of kvs ''trailDistanceMeter'' = Some v \<and> numeric_value v = Some q \<and> q \<noteq> 0 \<longrightarrow>
       length_t sf t = Inr (PInt (if 0 \<le> q then \<lfloor>q\<rfloor> else \<lceil>q\<rceil>)) \<and>
       (\<exists>y r. round_double (q / 1000) = Fin y \<and>
          \<bar>of_int (round_half_even (y * 10)) / 10 - y\<bar> \<le> 1 / 20 \<and>
          round_double (of_int (round_half_even (y * 10)) / 10) = Fin r \<and>
          length_in_km sf t = Inr (PFloat (Fin r))))"
proof (intro conjI allI impI)
  assume "map_of kvs ''trailDistanceMeter'' = None"
  then show "length_t sf t = Inl (KeyError ''trailDistanceMeter'')"
    and "length_in_km sf t = Inl (KeyError ''trailDistanceMeter'')"
    using assms by (simp_all add: length_t_def length_in_km_def)
next
  fix v assume "map_of kvs ''trailDistanceMeter'' = Some v \<and> \<not> truthy v"
  then show "length_t sf t = Inr (PInt 0)" and "length_in_km sf t = Inr (PInt 0)"
    using assms by (simp_all add: length_t_def length_in_km_def)
next
  fix v q
  assume a: "map_of kvs ''trailDistanceMeter'' = Some v \<and> numeric_value v = Some q \<and> q \<noteq> 0"
  then have tv: "truthy v" and fl: "py_float sf v = Inr (Fin q)"
    using truthy_numeric py_float_numeric by simp_all
  show "length_t sf t = Inr (PInt (if 0 \<le> q then \<lfloor>q\<rfloor> else \<lceil>q\<rceil>))"
    using assms a tv fl by (simp add: length_t_def)
  have "\<bar>q\<bar> < 2 ^ 1024" using a numeric_value_bound by blast
  then obtain y r where yr: "round_double (q / 1000) = Fin y"
      "\<bar>of_int (round_half_even (y * 10)) / 10 - y\<bar> \<le> 1 / 20"
      "round_double (of_int (round_half_even (y * 10)) / 10) = Fin r"
      "py_round_1 (float_div_1000 (Fin q)) = Inr (Fin r)"
    using round_km by blast
  have "length_in_km sf t = Inr (PFloat (Fin r))"
    using assms a tv fl yr(4) by (simp add: length_in_km_def)
  with yr show "\<exists>y r. round_double (q / 1000) = Fin y \<and>
          \<bar>of_int (round_half_even (y * 10)) / 10 - y\<bar> \<le> 1 / 20 \<and>
          round_double (of_int (round_half_even (y * 10)) / 10) = Fin r \<and>
          length_in_km sf t = Inr (PFloat (Fin r))"
    by blast
qed

theorem length_by_cases_witness:
  "length_t no_text (with_distance []) = Inl (KeyError ''trailDistanceMeter'') \<and>
   length_in_km no_text (with_distance []) = Inl (KeyError ''trailDistanceMeter'') \<and>
   length_t no_text (with_distance [(''trailDistanceMeter'', PNone)]) = Inr (PInt 0) \<and>
   length_in_km no_text (with_distance [(''trailDistanceMeter'', PNone)]) = Inr (PInt 0) \<and>
   length_t no_text (with_distance [(''trailDistanceMeter'', PInt 3500)]) = Inr (PInt 3500) \<and>
   length_in_km no_text (with_distance [(''trailDistanceMeter'', PInt 3500)])
     = Inr (PFloat (Fin (7 / 2))) \<and>
   length_t no_text (with_distance [(''trailDistanceMeter'', PFloat (Fin (2469 / 2)))])
     = Inr (PInt 1234) \<and>
   (\<exists>r. length_in_km no_text (with_distance [(''trailDistanceMeter'', PFloat (Fin (2469 / 2)))])
     = Inr (PFloat (Fin r)))"
proof -
  have p: "properties (with_distance kvs) = PDict kvs" for kvs
    by (simp add: with_distance_def)
  have a: "length_t no_text (with_distance []) = Inl (KeyError ''trailDistanceMeter'') \<and>
      length_in_km no_text (with_distance []) = Inl (KeyError ''trailDistanceMeter'')"
    using length_by_cases [OF p, of "[]" no_text] by simp
  have b: "length_t no_text (with_distance [(''trailDistanceMeter'', PNone)]) = Inr (PInt 0) \<and>
      length_in_km no_text (with_distance [(''trailDistanceMeter'', PNone)]) = Inr (PInt 0)"
    using length_by_cases [OF p, of "[(''trailDistanceMeter'', PNone)]" no_text] by simp
  have ci: "map_of [(''trailDistanceMeter'', PInt 3500)] ''trailDistanceMeter'' = Some (PInt 3500) \<and>
      numeric_value (PInt 3500) = Some 3500 \<and> (3500 :: rat) \<noteq> 0"
    by simp
  from length_by_cases [OF p, of "[(''trailDistanceMeter'', PInt 3500)]" no_text,
      THEN conjunct2, THEN conjunct2, rule_format, OF ci]
  obtain y r where c1: "length_t no_text (with_distance [(''trailDistanceMeter'', PInt 3500)])
        = Inr (PInt (if (0 :: rat) \<le> 3500 then \<lfloor>3500 :: rat\<rfloor> else \<lceil>3500 :: rat\<rceil>))"
    and y: "round_double (3500 / 1000) = Fin y"
    and r: "round_double (of_int (round_half_even (y * 10)) / 10) = Fin r"
    and c2: "length_in_km no_text (with_distance [(''trailDistanceMeter'', PInt 3500)])
        = Inr (PFloat (Fin r))"
    by blast
  have "round_double (3500 / 1000) = Fin (7 / 2)" by code_simp
  with y have y': "y = 7 / 2" by (simp only: pyfloat.inject)
  have "round_double (of_int (round_half_even (7 / 2 * 10)) / 10) = Fin (7 / 2)"
    by code_simp
  with r have r': "r = 7 / 2" by (simp only: y' pyfloat.inject)
  have c: "length_t no_text (with_distance [(''trailDistanceMeter'', PInt 3500)]) = Inr (PInt 3500) \<and>
      length_in_km no_text (with_distance [(''trailDistanceMeter'', PInt 3500)])
        = Inr (PFloat (Fin (7 / 2)))"
    using c1 c2 r' by simp
  have di: "map_of [(''trailDistanceMeter'', PFloat (Fin (2469 / 2)))] ''trailDistanceMeter''
        = Some (PFloat (Fin (2469 / 2))) \<and>
      numeric_value (PFloat (Fin (2469 / 2))) = Some (2469 / 2) \<and> (2469 / 2 :: rat) \<noteq> 0"
    by simp
  from length_by_cases [OF p, of "[(''trailDistanceMeter'', PFloat (Fin (2469 / 2)))]" no_text,
      THEN conjunct2, THEN conjunct2, rule_format, OF di]
  obtain r2 where d1: "length_t no_text
        (with_distance [(''trailDistanceMeter'', PFloat (Fin (2469 / 2)))])
        = Inr (PInt (if (0 :: rat) \<le> 2469 / 2 then \<lfloor>2469 / 2 :: rat\<rfloor> else \<lceil>2469 / 2 :: rat\<rceil>))"
    and d2: "length_in_km no_text (with_distance [(''trailDistanceMeter'', PFloat (Fin (2469 / 2)))])
        = Inr (PFloat (Fin r2))"
    by blast
  have "\<lfloor>2469 / 2 :: rat\<rfloor> = 1234" by code_simp
  with d1 have d1': "length_t no_text
        (with_distance [(''trailDistanceMeter'', PFloat (Fin (2469 / 2)))]) = Inr (PInt 1234)"
    by simp
  from a b c d1' d2 show ?thesis by blast
qed

theorem length_counterexample:
  "length_t (\<lambda>s. None)
      \<lparr>id = ''d6'', objectClass = ''trail'', content = PDict [(''title'', PStr ''Loop D'')],
       properties = PDict [(''isMultiTrail'', PBool False)], networkId = ''net''\<rparr>
     = Inl (KeyError ''trailDistanceMeter'') \<and>
   length_in_km (\<lambda>s. None)
      \<lparr>id = ''d6'', objectClass = ''trail'', content = PDict [(''title'', PStr ''Loop D'')],
       properties = PDict [(''isMultiTrail'', PBool False)], networkId = ''net''\<rparr>
     = Inl (KeyError ''trailDistanceMeter'') \<and>
   length_t (\<lambda>s. None)
      \<lparr>id = ''d6'', objectClass = ''trail'', content = PDict [(''title'', PStr ''Loop D'')],
       properties = PDict [(''trailDistanceMeter'', PFloat (Fin (- 7 / 2)))], networkId = ''net''\<rparr>
     = Inr (PInt (- 3)) \<and>
   \<lfloor>- 7 / 2 :: rat\<rfloor> = - 4 \<and>
   length_t (\<lambda>s. None)
      \<lparr>id = ''d6'', objectClass = ''trail'', content = PDict [(''title'', PStr ''Loop D'')],
       properties = PDict [(''trailDistanceMeter'', PInt 9007199254740993)], networkId = ''net''\<rparr>
     = Inr (PInt 9007199254740992)"
proof -
  have "\<lceil>- 7 / 2 :: rat\<rceil> = - 3" and "\<lfloor>- 7 / 2 :: rat\<rfloor> = - 4"
    by code_simp+
  moreover have "round_double (of_int 9007199254740993) = Fin 9007199254740992"
    by code_simp
  ultimately show ?thesis
    by (simp add: length_t_def length_in_km_def)
qed

text \<open>
  Claim C3. When the content of an item is absent (\<^verbatim>\<open>None\<close>) or empty, \<^verbatim>\<open>activity\<close> raises
  the \<^verbatim>\<open>ValueError\<close> "no self.content"; when the content is a non-empty mapping without
  the key "activity", \<^verbatim>\<open>activity\<close> returns the empty mapping and raises nothing.
\<close>

theorem activity_missing_content:
  "(\<not> truthy (content t) \<longrightarrow> activity t = Inl (ValueError ''no self.content'')) \<and>
   (\<forall>kvs. content t = PDict kvs \<and> kvs \<noteq> [] \<and> map_of kvs ''activity'' = None \<longrightarrow>
      activity t = Inr (PDict []))"
  by (auto simp add: activity_def)

theorem activity_missing_content_witness:
  "content poi = PNone \<and> activity poi = Inl (ValueError ''no self.content'') \<and>
   activity (poi\<lparr>content := PDict []\<rparr>) = Inl (ValueError ''no self.content'') \<and>
   content loop_b = PDict [(''title'', PStr ''Loop B, with comma'')] \<and>
   activity loop_b = Inr (PDict [])"
proof -
  have "activity poi = Inl (ValueError ''no self.content'')"
    using activity_missing_content [of poi, THEN conjunct1] by (simp add: poi_def)
  moreover have "activity (poi\<lparr>content := PDict []\<rparr>) = Inl (ValueError ''no self.content'')"
    using activity_missing_content [of "poi\<lparr>content := PDict []\<rparr>", THEN conjunct1] by simp
  moreover have "activity loop_b = Inr (PDict [])"
    using activity_missing_content [of loop_b, THEN conjunct2, rule_format,
        of "[(''title'', PStr ''Loop B, with comma'')]"]
    by (simp add: loop_b_def)
  ultimately show ?thesis by (simp add: poi_def loop_b_def)
qed

text \<open>
  Claim C4. Let the raw payload be a mapping whose "items" entry is an array. If the
  construction of a \<^verbatim>\<open>TrailItem\<close> fails on some element, \<^verbatim>\<open>parse_items\<close> fails with the
  error of such a construction, which is a validation error when the elements are JSON
  objects, and the object, its \<^verbatim>\<open>items\<close> list included, is left as it was: no partial list
  is kept. If the construction succeeds on every element, \<^verbatim>\<open>items\<close> becomes the list of
  the constructed items, one per element, in the order of the array.
\<close>

theorem parse_items_all_or_nothing:
  assumes "data d = PDict kvs" and "map_of kvs ''items'' = Some (PList xs)"
  shows "((\<exists>x\<in>set xs. \<exists>e. TrailItem_init x = Inl e) \<longrightarrow>
           (\<exists>e. parse_items d = (Inl e, d) \<and> (\<exists>x\<in>set xs. TrailItem_init x = Inl e) \<and>
              ((\<forall>x\<in>set xs. is_object x) \<longrightarrow> (\<exists>fs. e = ValidationError fs)))) \<and>
         ((\<forall>x\<in>set xs. \<exists>t. TrailItem_init x = Inr t) \<longrightarrow>
           (\<exists>ts. parse_items d = (Inr (), d\<lparr>items := ts\<rparr>) \<and>
              map Inr ts = map TrailItem_init xs))"
proof -
  have p: "parse_items d =
      (case map_E TrailItem_init xs of Inl e \<Rightarrow> (Inl e, d) | Inr ts \<Rightarrow> (Inr (), d\<lparr>items := ts\<rparr>))"
    using assms by (simp add: parse_items_def)
  have a: "\<exists>e. parse_items d = (Inl e, d) \<and> (\<exists>x\<in>set xs. TrailItem_init x = Inl e) \<and>
              ((\<forall>x\<in>set xs. is_object x) \<longrightarrow> (\<exists>fs. e = ValidationError fs))"
    if bad: "\<exists>x\<in>set xs. \<exists>e. TrailItem_init x = Inl e"
  proof -
    obtain e where e: "map_E TrailItem_init xs = Inl e" "\<exists>x\<in>set xs. TrailItem_init x = Inl e"
      using map_E_fail [OF bad] by blast
    have "parse_items d = (Inl e, d)" using p e(1) by simp
    moreover have "(\<forall>x\<in>set xs. is_object x) \<longrightarrow> (\<exists>fs. e = ValidationError fs)"
      using e(2) TrailItem_init_object_error by blast
    ultimately show ?thesis using e(2) by blast
  qed
  have b: "\<exists>ts. parse_items d = (Inr (), d\<lparr>items := ts\<rparr>) \<and> map Inr ts = map TrailItem_init xs"
    if good: "\<forall>x\<in>set xs. \<exists>t. TrailItem_init x = Inr t"
  proof -
    obtain ts where ts: "map_E TrailItem_init xs = Inr ts" "map Inr ts = map TrailItem_init xs"
      using map_E_ok [OF good] by blast
    from ts(1) have "parse_items d = (Inr (), d\<lparr>items := ts\<rparr>)" using p by simp
    with ts(2) show ?thesis by blast
  qed
  from a b show ?thesis by blast
qed

theorem parse_items_all_or_nothing_witness:
  "TrailItem_init raw_broken = Inl (ValidationError [''id'']) \<and>
   (\<exists>fs. parse_items fetched_broken = (Inl (ValidationError fs), fetched_broken)) \<and>
   items (snd (parse_items fetched_broken)) = [] \<and>
   (\<exists>ts. parse_items fetched = (Inr (), fetched\<lparr>items := ts\<rparr>) \<and>
      map Inr ts = map TrailItem_init [raw_loop_a, raw_poi, raw_loop_b]) \<and>
   items (snd (parse_items fetched)) = [loop_a, poi, loop_b]"
proof -
  have db: "data fetched_broken = PDict [(''items'', PList [raw_loop_a, raw_broken, raw_loop_b])]"
    and dg: "data fetched = PDict [(''items'', PList [raw_loop_a, raw_poi, raw_loop_b])]"
    by (simp_all add: fetched_broken_def fetched_def)
  have m: "map_of [(''items'', v)] ''items'' = Some v" for v :: pyval
    by simp
  have obj: "\<forall>x\<in>set [raw_loop_a, raw_broken, raw_loop_b]. is_object x"
    by (simp add: raw_loop_a_def raw_broken_def raw_loop_b_def)
  have bad: "\<exists>x\<in>set [raw_loop_a, raw_broken, raw_loop_b]. \<exists>e. TrailItem_init x = Inl e"
    by (simp add: init_examples)
  have good: "\<forall>x\<in>set [raw_loop_a, raw_poi, raw_loop_b]. \<exists>t. TrailItem_init x = Inr t"
    by (simp add: init_examples)
  from parse_items_all_or_nothing [OF db m, THEN conjunct1, THEN mp, OF bad] obj
  have f: "\<exists>fs. parse_items fetched_broken = (Inl (ValidationError fs), fetched_broken)"
    by blast
  from parse_items_all_or_nothing [OF dg m, THEN conjunct2, THEN mp, OF good]
  have g: "\<exists>ts. parse_items fetched = (Inr (), fetched\<lparr>items := ts\<rparr>) \<and>
      map Inr ts = map TrailItem_init [raw_loop_a, raw_poi, raw_loop_b]" .
  from f have f': "items (snd (parse_items fetched_broken)) = []"
    by (auto simp: fetched_broken_def)
  have g': "items (snd (parse_items fetched)) = [loop_a, poi, loop_b]"
    by (simp add: parse_fetched parsed_def)
  from f f' g g' show ?thesis by (simp add: init_examples)
qed

text \<open>
  Claim C5. When the content of every trail is a non-empty mapping, both
  \<^verbatim>\<open>trails_with_activity\<close> and \<^verbatim>\<open>trails_without_activity\<close> return, and they partition
  \<^verbatim>\<open>trails\<close>: every occurrence of an item of \<^verbatim>\<open>trails\<close> is in exactly one of the two views,
  no item is in both, and no item outside \<^verbatim>\<open>trails\<close> is in either.
\<close>

theorem activity_views_partition_trails:
  assumes "\<forall>t\<in>set (trails d). nonempty_mapping (content t)"
  shows "\<exists>ws wos. trails_with_activity d = Inr ws \<and> trails_without_activity d = Inr wos \<and>
    mset ws + mset wos = mset (trails d) \<and>
    set ws \<inter> set wos = {} \<and>
    set ws \<union> set wos = set (trails d)"
proof -
  define w where "w = (\<lambda>item. bind_E (activity item) (\<lambda>a. Inr (a \<noteq> PDict [])))"
  define wo where "wo = (\<lambda>item. bind_E (activity item) (\<lambda>a. Inr (a = PDict [])))"
  have ok: "\<exists>a. activity x = Inr a" if "x \<in> set (trails d)" for x
    using that assms activity_of_mapping by blast
  have okw: "\<forall>x\<in>set (trails d). \<exists>b. w x = Inr b"
  proof
    fix x assume "x \<in> set (trails d)"
    then obtain a where "activity x = Inr a" using ok by blast
    then show "\<exists>b. w x = Inr b" by (simp add: w_def)
  qed
  have okwo: "\<forall>x\<in>set (trails d). \<exists>b. wo x = Inr b"
  proof
    fix x assume "x \<in> set (trails d)"
    then obtain a where "activity x = Inr a" using ok by blast
    then show "\<exists>b. wo x = Inr b" by (simp add: wo_def)
  qed
  have compl: "(wo x = Inr True) = (\<not> w x = Inr True)" if x: "x \<in> set (trails d)" for x
  proof -
    obtain a where "activity x = Inr a" using ok [OF x] by blast
    then show ?thesis by (simp add: w_def wo_def)
  qed
  define ws where "ws = filter (\<lambda>x. w x = Inr True) (trails d)"
  define wos where "wos = filter (\<lambda>x. wo x = Inr True) (trails d)"
  have r1: "trails_with_activity d = Inr ws"
    unfolding trails_with_activity_def ws_def using view_total [OF okw] by (simp add: w_def)
  have r2: "trails_without_activity d = Inr wos"
    unfolding trails_without_activity_def wos_def using view_total [OF okwo] by (simp add: wo_def)
  have wos': "wos = filter (\<lambda>x. \<not> w x = Inr True) (trails d)"
    unfolding wos_def by (rule filter_cong) (simp_all add: compl)
  have "mset ws + mset wos = mset (trails d)"
    by (simp add: ws_def wos')
  moreover have "set ws \<inter> set wos = {}"
    by (auto simp: ws_def wos')
  moreover have "set ws \<union> set wos = set (trails d)"
    by (auto simp: ws_def wos')
  ultimately show ?thesis using r1 r2 by blast
qed

theorem activity_views_partition_trails_witness:
  "list_all (\<lambda>t. nonempty_mapping (content t)) (trails parsed) \<and>
   (\<exists>ws wos. trails_with_activity parsed = Inr ws \<and> trails_without_activity parsed = Inr wos \<and>
      mset ws + mset wos = mset (trails parsed) \<and> set ws \<inter> set wos = {} \<and>
      set ws \<union> set wos = set (trails parsed)) \<and>
   trails parsed = [loop_a, loop_b] \<and>
   trails_with_activity parsed = Inr [loop_a] \<and>
   trails_without_activity parsed = Inr [loop_b]"
proof -
  have h: "\<forall>t\<in>set (trails parsed). nonempty_mapping (content t)"
    by (simp add: parsed_views loop_a_def loop_b_def)
  then have "list_all (\<lambda>t. nonempty_mapping (content t)) (trails parsed)"
    by (simp add: list_all_iff)
  with activity_views_partition_trails [OF h] show ?thesis
    by (simp only: parsed_views simp_thms)
qed

text \<open>
  Claim C6, as amended. When every trail has a content that is a non-empty mapping and an
  \<^verbatim>\<open>activity_key\<close> that is a string (the activity is absent or false, or a mapping whose
  "key" is absent or a string), \<^verbatim>\<open>trails_with_unsupported_activity\<close> is the empty list:
  \<^verbatim>\<open>has_bike_activity\<close> is true of every trail.
\<close>

theorem no_unsupported_activity:
  assumes "\<forall>t\<in>set (trails d).
     nonempty_mapping (content t) \<and> (\<exists>s. activity_key t = Inr (PStr s))"
  shows "trails_with_unsupported_activity d = Inr []"
proof -
  define c where "c = (\<lambda>item.
         bind_E (or_E (has_hike_activity item)
                  (or_E (has_riding_activity item)
                    (or_E (has_bike_activity item) (has_running_activity item))))
           (\<lambda>b. Inr (\<not> b)))"
  have f: "c x = Inr False" if x: "x \<in> set (trails d)" for x
  proof -
    obtain s where "activity_key x = Inr (PStr s)" using assms x by blast
    then show ?thesis
      by (simp add: c_def or_E_def has_hike_activity_def has_riding_activity_def
          has_bike_activity_def py_or_def)
  qed
  then have "\<forall>t\<in>set (trails d). \<exists>b. c t = Inr b" by blast
  then have "filter_E (trail_and c) (items d) = Inr (filter (\<lambda>x. c x = Inr True) (trails d))"
    by (rule view_total)
  moreover have "filter (\<lambda>x. c x = Inr True) (trails d) = []"
    using f by (simp add: filter_empty_conv)
  ultimately show ?thesis
    by (simp add: trails_with_unsupported_activity_def c_def)
qed

theorem no_unsupported_activity_witness:
  "trails parsed = [loop_a, loop_b] \<and>
   nonempty_mapping (content loop_a) \<and> activity_key loop_a = Inr (PStr ''hiking-easy'') \<and>
   nonempty_mapping (content loop_b) \<and> activity_key loop_b = Inr (PStr []) \<and>
   trails_with_unsupported_activity parsed = Inr []"
proof -
  have k: "nonempty_mapping (content loop_a)" "activity_key loop_a = Inr (PStr ''hiking-easy'')"
    "nonempty_mapping (content loop_b)" "activity_key loop_b = Inr (PStr [])"
    by (simp_all add: activity_key_def activity_def loop_a_def loop_b_def)
  then have "\<forall>t\<in>set (trails parsed).
     nonempty_mapping (content t) \<and> (\<exists>s. activity_key t = Inr (PStr s))"
    by (simp add: parsed_views)
  then have "trails_with_unsupported_activity parsed = Inr []"
    by (rule no_unsupported_activity)
  with k show ?thesis by (simp add: parsed_views)
qed

theorem unsupported_activity_counterexample:
  "trails \<lparr>items = [\<lparr>id = ''n4'', objectClass = ''trail'',
        content = PDict [(''title'', PStr ''Loop N''), (''activity'', PDict [(''key'', PNone)])],
        properties = PDict [(''isMultiTrail'', PBool False)], networkId = ''net''\<rparr>],
      data = PNone\<rparr>
    = [\<lparr>id = ''n4'', objectClass = ''trail'',
        content = PDict [(''title'', PStr ''Loop N''), (''activity'', PDict [(''key'', PNone)])],
        properties = PDict [(''isMultiTrail'', PBool False)], networkId = ''net''\<rparr>] \<and>
   truthy (PDict [(''title'', PStr ''Loop N''), (''activity'', PDict [(''key'', PNone)])]) \<and>
   trails_with_unsupported_activity \<lparr>items = [\<lparr>id = ''n4'', objectClass = ''trail'',
        content = PDict [(''title'', PStr ''Loop N''), (''activity'', PDict [(''key'', PNone)])],
        properties = PDict [(''isMultiTrail'', PBool False)], networkId = ''net''\<rparr>],
      data = PNone\<rparr>
    = Inl TypeError"
  by (simp add: trails_def class_t_def trails_with_unsupported_activity_def trail_and_def
      or_E_def has_hike_activity_def activity_key_def activity_def)

text \<open>
  Claim C7. An item whose \<^verbatim>\<open>objectClass\<close> is not "trail" is in none of the filtered views:
  it is not in \<^verbatim>\<open>trails\<close>, and it is in no list that one of the other eight views returns.
  This holds for every such item, so for those of the \<^verbatim>\<open>items\<close> list.
\<close>

theorem non_trail_items_excluded:
  assumes "objectClass t \<noteq> ''trail''"
  shows "t \<notin> set (trails d) \<and>
    (\<forall>xs. multitrails d = Inr xs \<longrightarrow> t \<notin> set xs) \<and>
    (\<forall>xs. riding_trails d = Inr xs \<longrightarrow> t \<notin> set xs) \<and>
    (\<forall>xs. bicycle_trails d = Inr xs \<longrightarrow> t \<notin> set xs) \<and>
    (\<forall>xs. hiking_trails d = Inr xs \<longrightarrow> t \<notin> set xs) \<and>
    (\<forall>xs. running_trails d = Inr xs \<longrightarrow> t \<notin> set xs) \<and>
    (\<forall>xs. trails_with_activity d = Inr xs \<longrightarrow> t \<notin> set xs) \<and>
    (\<forall>xs. trails_without_activity d = Inr xs \<longrightarrow> t \<notin> set xs) \<and>
    (\<forall>xs. trails_with_unsupported_activity d = Inr xs \<longrightarrow> t \<notin> set xs)"
proof -
  have tr: "t \<notin> set (trails d)"
    using assms by (simp add: trails_def class_t_def)
  have v: "t \<notin> set xs" if "filter_E (trail_and c) (items d) = Inr xs" for c xs
    using view_props(3) [OF that] assms by blast
  show ?thesis
    unfolding multitrails_def riding_trails_def bicycle_trails_def hiking_trails_def
      running_trails_def trails_with_activity_def trails_without_activity_def
      trails_with_unsupported_activity_def
    using tr v by blast
qed

theorem non_trail_items_excluded_witness:
  "objectClass poi \<noteq> ''trail'' \<and> poi \<in> set (items parsed) \<and>
   poi \<notin> set (trails parsed) \<and>
   (\<exists>xs. multitrails parsed = Inr xs \<and> poi \<notin> set xs) \<and>
   (\<exists>xs. riding_trails parsed = Inr xs \<and> poi \<notin> set xs) \<and>
   (\<exists>xs. bicycle_trails parsed = Inr xs \<and> poi \<notin> set xs) \<and>
   (\<exists>xs. hiking_trails parsed = Inr xs \<and> poi \<notin> set xs) \<and>
   (\<exists>xs. running_trails parsed = Inr xs \<and> poi \<notin> set xs) \<and>
   (\<exists>xs. trails_with_activity parsed = Inr xs \<and> poi \<notin> set xs) \<and>
   (\<exists>xs. trails_without_activity parsed = Inr xs \<and> poi \<notin> set xs) \<and>
   (\<exists>xs. trails_with_unsupported_activity parsed = Inr xs \<and> poi \<notin> set xs)"
proof -
  have h: "objectClass poi \<noteq> ''trail''"
    by (simp add: poi_def)
  have i: "poi \<in> set (items parsed)"
    by (simp add: parsed_def)
  from non_trail_items_excluded [OF h, of parsed] h i show ?thesis
    by (simp only: parsed_views sum.inject simp_thms ex_simps)
qed

text \<open>
  Claim C8. When every row accessor (\<^verbatim>\<open>title\<close>, \<^verbatim>\<open>number\<close>, \<^verbatim>\<open>activity_key\<close>,
  \<^verbatim>\<open>is_multitrail\<close>, \<^verbatim>\<open>length\<close>) returns a value on every trail, \<^verbatim>\<open>export_trails_to_csv\<close>
  succeeds and writes the header row with the column names title, number, activity_key,
  multitrail, length, url, gpx, followed by the row of each item of \<^verbatim>\<open>trails\<close>, in the
  order of \<^verbatim>\<open>trails\<close>: \<open>1 + length (trails d)\<close> rows in all. The accessors return
  when the fields are as in \<open>trail_row_returns\<close>.
\<close>

theorem export_trails_to_csv_rows:
  assumes "\<forall>t\<in>set (trails d). \<exists>r. trail_row sf t = Inr r"
  shows "\<exists>rows. export_trails_to_csv sf d =
      (Inr (), map PStr [''title'', ''number'', ''activity_key'', ''multitrail'', ''length'',
                 ''url'', ''gpx''] # rows) \<and>
    map Inr rows = map (trail_row sf) (trails d) \<and>
    length (snd (export_trails_to_csv sf d)) = 1 + length (trails d)"
proof -
  obtain rows where rows: "write_rows sf (trails d) [map PStr fieldnames]
       = (Inr (), [map PStr fieldnames] @ rows)"
      "map Inr rows = map (trail_row sf) (trails d)"
    using write_rows_ok [OF assms] by blast
  have "length rows = length (trails d)"
    using rows(2) by (metis length_map)
  with rows show ?thesis
    by (simp add: export_trails_to_csv_def fieldnames_def)
qed

theorem export_trails_to_csv_rows_witness:
  "trails parsed = [loop_a, loop_b] \<and>
   (\<exists>rows. export_trails_to_csv no_text parsed =
      (Inr (), map PStr [''title'', ''number'', ''activity_key'', ''multitrail'', ''length'',
                 ''url'', ''gpx''] # rows) \<and>
      map Inr rows = map (trail_row no_text) [loop_a, loop_b]) \<and>
   length (snd (export_trails_to_csv no_text parsed)) = 3 \<and>
   snd (export_trails_to_csv no_text parsed) =
     [[PStr ''title'', PStr ''number'', PStr ''activity_key'', PStr ''multitrail'',
       PStr ''length'', PStr ''url'', PStr ''gpx''],
      [PStr ''Loop A'', PStr ''12'', PStr ''hiking-easy'', PBool False, PInt 3500,
       PStr ''https://www.aretrails.com/trail/a1'',
       PStr (''https://func-gaiaplaces-aretrails.azurewebsites.net/api/ContentItem/geo/a1''
             @ ''/gpx?networkId=net&draft=0&code='')],
      [PStr ''Loop B, with comma'', PStr [], PStr [], PBool True, PInt 0,
       PStr ''https://www.aretrails.com/trail/b2'',
       PStr (''https://func-gaiaplaces-aretrails.azurewebsites.net/api/ContentItem/geo/b2''
             @ ''/gpx?networkId=net&draft=0&code='')]]"
proof -
  have h: "\<forall>t\<in>set (trails parsed). \<exists>r. trail_row no_text t = Inr r"
    by (simp add: parsed_views row_examples)
  from export_trails_to_csv_rows [OF h]
  have e: "\<exists>rows. export_trails_to_csv no_text parsed =
      (Inr (), map PStr [''title'', ''number'', ''activity_key'', ''multitrail'', ''length'',
                 ''url'', ''gpx''] # rows) \<and>
      map Inr rows = map (trail_row no_text) [loop_a, loop_b]"
    and l: "length (snd (export_trails_to_csv no_text parsed)) = 3"
    by (auto simp: parsed_views(1))
  have f: "snd (export_trails_to_csv no_text parsed) =
     [[PStr ''title'', PStr ''number'', PStr ''activity_key'', PStr ''multitrail'',
       PStr ''length'', PStr ''url'', PStr ''gpx''],
      [PStr ''Loop A'', PStr ''12'', PStr ''hiking-easy'', PBool False, PInt 3500,
       PStr ''https://www.aretrails.com/trail/a1'',
       PStr (''https://func-gaiaplaces-aretrails.azurewebsites.net/api/ContentItem/geo/a1''
             @ ''/gpx?networkId=net&draft=0&code='')],
      [PStr ''Loop B, with comma'', PStr [], PStr [], PBool True, PInt 0,
       PStr ''https://www.aretrails.com/trail/b2'',
       PStr (''https://func-gaiaplaces-aretrails.azurewebsites.net/api/ContentItem/geo/b2''
             @ ''/gpx?networkId=net&draft=0&code='')]]"
    by (simp add: export_trails_to_csv_def parsed_views(1) row_examples fieldnames_def)
  from e l f parsed_views(1) show ?thesis by blast
qed

text \<open>
  Claim C9. \<^verbatim>\<open>trails\<close> is a subsequence of \<^verbatim>\<open>items\<close> (same items, same order, some left
  out), and every list that one of the other eight views returns is a subsequence of
  \<^verbatim>\<open>items\<close> and of \<^verbatim>\<open>trails\<close>.
\<close>

theorem views_are_subsequences:
  "subseq (trails d) (items d) \<and>
    (\<forall>xs. multitrails d = Inr xs \<longrightarrow> subseq xs (items d) \<and> subseq xs (trails d)) \<and>
    (\<forall>xs. riding_trails d = Inr xs \<longrightarrow> subseq xs (items d) \<and> subseq xs (trails d)) \<and>
    (\<forall>xs. bicycle_trails d = Inr xs \<longrightarrow> subseq xs (items d) \<and> subseq xs (trails d)) \<and>
    (\<forall>xs. hiking_trails d = Inr xs \<longrightarrow> subseq xs (items d) \<and> subseq xs (trails d)) \<and>
    (\<forall>xs. running_trails d = Inr xs \<longrightarrow> subseq xs (items d) \<and> subseq xs (trails d)) \<and>
    (\<forall>xs. trails_with_activity d = Inr xs \<longrightarrow> subseq xs (items d) \<and> subseq xs (trails d)) \<and>
    (\<forall>xs. trails_without_activity d = Inr xs \<longrightarrow> subseq xs (items d) \<and> subseq xs (trails d)) \<and>
    (\<forall>xs. trails_with_unsupported_activity d = Inr xs \<longrightarrow>
       subseq xs (items d) \<and> subseq xs (trails d))"
proof -
  have tr: "subseq (trails d) (items d)"
    by (simp add: trails_def)
  have v: "subseq xs (items d) \<and> subseq xs (trails d)"
    if "filter_E (trail_and c) (items d) = Inr xs" for c xs
    using view_props(1,2) [OF that] by simp
  show ?thesis
    unfolding multitrails_def riding_trails_def bicycle_trails_def hiking_trails_def
      running_trails_def trails_with_activity_def trails_without_activity_def
      trails_with_unsupported_activity_def
    using tr v by blast
qed

theorem views_are_subsequences_witness:
  "items parsed = [loop_a, poi, loop_b] \<and>
   subseq (trails parsed) (items parsed) \<and>
   multitrails parsed = Inr [loop_b] \<and>
   subseq [loop_b] (items parsed) \<and> subseq [loop_b] (trails parsed) \<and>
   hiking_trails parsed = Inr [loop_a] \<and>
   subseq [loop_a] (items parsed) \<and> subseq [loop_a] (trails parsed) \<and>
   bicycle_trails parsed = Inr [loop_a, loop_b] \<and>
   subseq [loop_a, loop_b] (items parsed) \<and> subseq [loop_a, loop_b] (trails parsed)"
proof -
  note th = views_are_subsequences [of parsed]
  have "subseq (trails parsed) (items parsed)"
    using th by blast
  moreover have "subseq [loop_b] (items parsed) \<and> subseq [loop_b] (trails parsed)"
    using th parsed_views(2) by blast
  moreover have "subseq [loop_a] (items parsed) \<and> subseq [loop_a] (trails parsed)"
    using th parsed_views(5) by blast
  moreover have "subseq [loop_a, loop_b] (items parsed) \<and> subseq [loop_a, loop_b] (trails parsed)"
    using th parsed_views(4) by blast
  moreover have "items parsed = [loop_a, poi, loop_b]"
    by (simp add: parsed_def)
  ultimately show ?thesis
    using parsed_views(2,4,5) by blast
qed

text \<open>
  Claim C10. When the content is a non-empty mapping whose "activity" is a non-empty
  mapping without the entry "key", \<^verbatim>\<open>activity_key\<close> returns the empty string and does not
  fail; this is also what it returns when the activity is empty.
\<close>

theorem activity_key_without_key:
  "(\<forall>kvs akvs. content t = PDict kvs \<and> kvs \<noteq> [] \<and>
       map_of kvs ''activity'' = Some (PDict akvs) \<and> akvs \<noteq> [] \<and> map_of akvs ''key'' = None \<longrightarrow>
       activity_key t = Inr (PStr [])) \<and>
   (activity t = Inr (PDict []) \<longrightarrow> activity_key t = Inr (PStr []))"
  by (auto simp add: activity_key_def activity_def)

theorem activity_key_without_key_witness:
  "content keyless_trail =
     PDict [(''title'', PStr ''Loop K''), (''activity'', PDict [(''value'', PStr ''DH'')])] \<and>
   activity keyless_trail = Inr (PDict [(''value'', PStr ''DH'')]) \<and>
   activity_key keyless_trail = Inr (PStr []) \<and>
   activity loop_b = Inr (PDict []) \<and>
   activity_key loop_b = Inr (PStr [])"
proof -
  have c: "content keyless_trail =
     PDict [(''title'', PStr ''Loop K''), (''activity'', PDict [(''value'', PStr ''DH'')])]"
    by (simp add: keyless_trail_def)
  have a: "activity keyless_trail = Inr (PDict [(''value'', PStr ''DH'')])"
    and b: "activity loop_b = Inr (PDict [])"
    by (simp_all add: activity_def keyless_trail_def loop_b_def)
  have "activity_key keyless_trail = Inr (PStr [])"
    using activity_key_without_key [of keyless_trail, THEN conjunct1, rule_format,
        of "[(''title'', PStr ''Loop K''), (''activity'', PDict [(''value'', PStr ''DH'')])]"
           "[(''value'', PStr ''DH'')]"] c
    by simp
  moreover have "activity_key loop_b = Inr (PStr [])"
    using activity_key_without_key [of loop_b, THEN conjunct2] b by simp
  ultimately show ?thesis using a b c by simp
qed

end
